theory Spec2Isabelle
  imports Main "HOL-Library.Word" "HOL-Library.AList"
begin

unbundle bit_operations_syntax

section \<open>Data model of asset\_object.hpp\<close>

text \<open>
  The header uses types that are declared outside it. Object identifiers
  (\<open>asset_id_type\<close>, \<open>account_id_type\<close>, ...) are instance numbers. \<open>share_type\<close> is
  the signed amount type of the chain; amounts are integers here. \<open>time_point_sec\<close> counts
  seconds in an unsigned 32-bit integer, and adding a number of seconds to it wraps around.
\<close>

type_synonym object_id_type = nat
type_synonym share_type = int
type_synonym time_point_sec = "32 word"

text \<open>
  The failures of the operations. A failed \<open>FC_ASSERT\<close> is an exception; the failure of
  the assertions of \<open>validate\<close> is the one the specification calls
  \<open>InvalidAssetOptions\<close>, the failure of the assertion on the asset id of an amount is
  \<open>AssertFailed\<close>. The other constructors are the typed failures of the
  specification's taxonomy.
\<close>

datatype error =
    InvalidAssetOptions
  | AssertFailed
  | AlreadySettled
  | ExceedsSettlementBudget
  | InvalidAmountFormat
  | DuplicateSymbol
  | PriceExceedsCap
  | GlobalSettleNotPermitted
  | InsufficientSettlementFund

text \<open>
  The enumerators of \<open>asset_issuer_permission_flags\<close> that asset\_object.hpp names. Their
  bit values are declared in another header, so every function that tests a bit takes the
  assignment of bits to the enumerators as its first argument.
\<close>

datatype asset_issuer_permission_flags =
    charge_market_fee
  | override_authority
  | transfer_restricted
  | disable_force_settle
  | global_settle
  | disable_confidential

text \<open>\<open>struct asset\<close>: an amount of one asset type, as built by \<open>asset(a, id)\<close>.\<close>

record asset =
  amount :: share_type
  asset_id :: object_id_type

text \<open>
  \<open>asset_options\<close> is declared in protocol/asset\_ops.hpp; these are the fields this header
  reads. The integer type of the two bitsets is the type parameter \<open>'w\<close>.
\<close>

record 'w asset_options =
  flags :: 'w
  issuer_permissions :: 'w
  max_supply :: share_type

record 'w asset_object =
  object_id :: object_id_type
  symbol :: string
  precision :: "8 word"
  issuer :: object_id_type
  options :: "'w asset_options"
  dynamic_asset_data_id :: object_id_type
  bitasset_data_id :: "object_id_type option"
  buyback_account :: "object_id_type option"
  dividend_data_id :: "object_id_type option"

text \<open>
  Modelled from the spec: \<open>bitasset_options\<close> is declared in protocol/asset\_ops.hpp, which
  is missing. The header reads its \<open>feed_lifetime_sec\<close>; the specification (sections 3 and
  4.4) adds the configured maximum settlement percentage per maintenance interval, a
  fixed-point percentage.
\<close>

record bitasset_options =
  feed_lifetime_sec :: "32 word"
  max_force_settlement_pct :: nat

text \<open>
  Modelled from the spec: \<open>price\<close> and \<open>price_feed\<close> are declared in a missing header. The
  type of a price is the parameter \<open>'p\<close>. The specification (section 4.2) describes a price
  observation by its coordinates, which are aggregated one by one, and names the settlement
  price and the maximum collateralization ratio.
\<close>

record 'p price_feed =
  feed_settlement_price :: 'p
  max_collateral_ratio :: nat

text \<open>
  \<open>asset_bitasset_data_object\<close>. \<open>feeds\<close> is a \<open>flat_map\<close> from the publisher to the
  publication time and the feed: one entry per publisher, kept as an association list.
\<close>

record 'p asset_bitasset_data_object =
  b_options :: bitasset_options
  feeds :: "(object_id_type \<times> time_point_sec \<times> 'p price_feed) list"
  current_feed :: "'p price_feed"
  current_feed_publication_time :: time_point_sec
  is_prediction_market :: bool
  force_settled_volume :: share_type
  settlement_price :: 'p
  settlement_fund :: share_type

section \<open>The member functions defined in the header\<close>

definition is_market_issued :: "'w asset_object \<Rightarrow> bool" where
  "is_market_issued a = (bitasset_data_id a \<noteq> None)"

definition can_force_settle ::
  "(asset_issuer_permission_flags \<Rightarrow> 'w::semiring_bit_operations) \<Rightarrow> 'w asset_object \<Rightarrow> bool" where
  "can_force_settle bits a = (\<not> (flags (options a) AND bits disable_force_settle \<noteq> 0))"

definition can_global_settle ::
  "(asset_issuer_permission_flags \<Rightarrow> 'w::semiring_bit_operations) \<Rightarrow> 'w asset_object \<Rightarrow> bool" where
  "can_global_settle bits a = (issuer_permissions (options a) AND bits global_settle \<noteq> 0)"

definition charges_market_fees ::
  "(asset_issuer_permission_flags \<Rightarrow> 'w::semiring_bit_operations) \<Rightarrow> 'w asset_object \<Rightarrow> bool" where
  "charges_market_fees bits a = (flags (options a) AND bits charge_market_fee \<noteq> 0)"

definition is_transfer_restricted ::
  "(asset_issuer_permission_flags \<Rightarrow> 'w::semiring_bit_operations) \<Rightarrow> 'w asset_object \<Rightarrow> bool" where
  "is_transfer_restricted bits a = (flags (options a) AND bits transfer_restricted \<noteq> 0)"

definition can_override ::
  "(asset_issuer_permission_flags \<Rightarrow> 'w::semiring_bit_operations) \<Rightarrow> 'w asset_object \<Rightarrow> bool" where
  "can_override bits a = (flags (options a) AND bits override_authority \<noteq> 0)"

definition allow_confidential ::
  "(asset_issuer_permission_flags \<Rightarrow> 'w::semiring_bit_operations) \<Rightarrow> 'w asset_object \<Rightarrow> bool" where
  "allow_confidential bits a = (\<not> (flags (options a) AND bits disable_confidential \<noteq> 0))"

text \<open>\<open>asset_object::amount\<close>: an amount of this asset's type.\<close>

definition asset_object_amount :: "'w asset_object \<Rightarrow> share_type \<Rightarrow> asset" where
  "asset_object_amount a x = \<lparr>amount = x, asset_id = object_id a\<rparr>"

text \<open>
  \<open>validate\<close>: the two assertions are checked in order, and only for an asset that is
  not market-issued.
\<close>

definition validate ::
  "(asset_issuer_permission_flags \<Rightarrow> 'w::semiring_bit_operations) \<Rightarrow> 'w asset_object \<Rightarrow> error + unit" where
  "validate bits a =
     (if \<not> is_market_issued a then
        if \<not> (\<not> (flags (options a) AND bits disable_force_settle \<noteq> 0
                 \<or> flags (options a) AND bits global_settle \<noteq> 0))
        then Inl InvalidAssetOptions
        else if \<not> (\<not> (issuer_permissions (options a) AND bits disable_force_settle \<noteq> 0
                      \<or> issuer_permissions (options a) AND bits global_settle \<noteq> 0))
        then Inl InvalidAssetOptions
        else Inr ()
      else Inr ())"

text \<open>
  \<open>bitasset_data(db)\<close>: the object the reference names in the store \<open>db\<close>; there is none
  when the reference is absent or names no stored object.
\<close>

definition bitasset_data ::
  "(object_id_type \<rightharpoonup> 'p asset_bitasset_data_object) \<Rightarrow> 'w asset_object
     \<Rightarrow> 'p asset_bitasset_data_object option" where
  "bitasset_data db a = (case bitasset_data_id a of None \<Rightarrow> None | Some i \<Rightarrow> db i)"

text \<open>
  \<open>has_settlement\<close>. \<open>price::is_null\<close> is declared with the price type, outside this
  header, and is the argument \<open>is_null\<close>.
\<close>

definition has_settlement :: "('p \<Rightarrow> bool) \<Rightarrow> 'p asset_bitasset_data_object \<Rightarrow> bool" where
  "has_settlement is_null b = (\<not> is_null (settlement_price b))"

definition feed_expiration_time :: "'p asset_bitasset_data_object \<Rightarrow> time_point_sec" where
  "feed_expiration_time b = current_feed_publication_time b + feed_lifetime_sec (b_options b)"

definition feed_is_expired_before_hardfork_615 ::
  "'p asset_bitasset_data_object \<Rightarrow> time_point_sec \<Rightarrow> bool" where
  "feed_is_expired_before_hardfork_615 b current_time = (feed_expiration_time b \<ge> current_time)"

definition feed_is_expired :: "'p asset_bitasset_data_object \<Rightarrow> time_point_sec \<Rightarrow> bool" where
  "feed_is_expired b current_time = (feed_expiration_time b \<le> current_time)"

section \<open>Amounts as decimal strings\<close>

text \<open>
  Decimal digits as characters, and natural numbers as strings of digits: the helpers of
  the formatter and the parser below.
\<close>

definition digit_char :: "nat \<Rightarrow> char" where
  "digit_char d = ''0123456789'' ! (d mod 10)"

definition is_digit :: "char \<Rightarrow> bool" where
  "is_digit c = (48 \<le> (of_char c :: nat) \<and> (of_char c :: nat) \<le> 57)"

definition digit_val :: "char \<Rightarrow> nat" where
  "digit_val c = of_char c - 48"

fun nat_to_string :: "nat \<Rightarrow> string" where
  "nat_to_string n =
     (if n < 10 then [digit_char n] else nat_to_string (n div 10) @ [digit_char (n mod 10)])"

declare nat_to_string.simps [simp del]

text \<open>The last \<open>k\<close> decimal digits of \<open>r\<close>, with leading zeros.\<close>

fun pad_digits :: "nat \<Rightarrow> nat \<Rightarrow> string" where
  "pad_digits 0 r = []"
| "pad_digits (Suc k) r = pad_digits k (r div 10) @ [digit_char (r mod 10)]"

definition string_to_nat :: "string \<Rightarrow> nat" where
  "string_to_nat s = foldl (\<lambda>acc c. 10 * acc + digit_val c) 0 s"

text \<open>
  Modelled from the spec: \<open>amount_to_string(share_type)\<close> is declared in the header and
  defined in asset\_object.cpp, which is missing. The specification (sections 6 and 8) says
  that it formats a decimal quantity using the asset's \<open>precision\<close>, with an optional
  leading sign and a single optional decimal point followed by at most \<open>precision\<close>
  fractional digits, and that with precision 2 the amount 12345 is written 123.45. Here it
  writes a minus sign for a negative amount, the integer part, and, when the precision is
  not zero, a point and exactly \<open>precision\<close> fractional digits.
\<close>

definition amount_to_string :: "'w asset_object \<Rightarrow> share_type \<Rightarrow> string" where
  "amount_to_string a x =
     (let p = unat (precision a); scaled = 10 ^ p; n = nat \<bar>x\<bar>
      in (if x < 0 then ''-'' else []) @ nat_to_string (n div scaled)
         @ (if p = 0 then [] else ''.'' @ pad_digits p (n mod scaled)))"

text \<open>The sign a string starts with, as a factor, and the string after it.\<close>

definition split_sign :: "string \<Rightarrow> int \<times> string" where
  "split_sign s =
     (case s of
        [] \<Rightarrow> (1, [])
      | c # r \<Rightarrow> if c = CHR ''-'' then (- 1, r) else if c = CHR ''+'' then (1, r) else (1, s))"

text \<open>
  Modelled from the spec: \<open>amount_from_string\<close> is declared in the header and defined in
  asset\_object.cpp, which is missing. The specification (section 6) says that it parses a
  decimal quantity using the asset's \<open>precision\<close>, with an optional leading sign and a
  single optional decimal point followed by at most \<open>precision\<close> fractional digits, and
  that malformed input signals \<open>InvalidAmountFormat\<close>. Here it reads a sign (\<open>-\<close> or
  \<open>+\<close>) if there is one, then at least one digit, then, if anything follows, a point and
  at most \<open>precision\<close> digits; the result is an amount of this asset.
\<close>

definition amount_from_string :: "'w asset_object \<Rightarrow> string \<Rightarrow> error + asset" where
  "amount_from_string a s =
     (let p = unat (precision a);
          (sg, body) = split_sign s;
          ip = takeWhile is_digit body;
          rest = dropWhile is_digit body
      in if ip = [] then Inl InvalidAmountFormat
         else case rest of
           [] \<Rightarrow> Inr (asset_object_amount a (sg * int (string_to_nat ip * 10 ^ p)))
         | c # fp \<Rightarrow>
             if c = CHR ''.'' \<and> list_all is_digit fp \<and> length fp \<le> p
             then Inr (asset_object_amount a
                    (sg * int (string_to_nat ip * 10 ^ p + string_to_nat fp * 10 ^ (p - length fp))))
             else Inl InvalidAmountFormat)"

text \<open>
  The grammar of an amount in the words of the specification: an optional sign, digits,
  and optionally a point with at most \<open>p\<close> digits after it.
\<close>

definition well_formed_amount :: "nat \<Rightarrow> string \<Rightarrow> bool" where
  "well_formed_amount p s =
     (\<exists>sg ip rest. s = sg @ ip @ rest
        \<and> (sg = [] \<or> sg = ''-'' \<or> sg = ''+'')
        \<and> ip \<noteq> [] \<and> list_all is_digit ip
        \<and> (rest = [] \<or> (\<exists>fp. rest = CHR ''.'' # fp \<and> list_all is_digit fp \<and> length fp \<le> p)))"

text \<open>
  The overloads defined in the header. Those that take an \<open>asset\<close> assert that it is an
  amount of this asset.
\<close>

definition amount_to_string_asset :: "'w asset_object \<Rightarrow> asset \<Rightarrow> error + string" where
  "amount_to_string_asset a x =
     (if \<not> (asset_id x = object_id a) then Inl AssertFailed
      else Inr (amount_to_string a (amount x)))"

definition amount_to_pretty_string :: "'w asset_object \<Rightarrow> share_type \<Rightarrow> string" where
  "amount_to_pretty_string a x = amount_to_string a x @ '' '' @ symbol a"

definition amount_to_pretty_string_asset :: "'w asset_object \<Rightarrow> asset \<Rightarrow> error + string" where
  "amount_to_pretty_string_asset a x =
     (if \<not> (asset_id x = object_id a) then Inl AssertFailed
      else Inr (amount_to_pretty_string a (amount x)))"

section \<open>Price-feed aggregation\<close>

text \<open>
  Modelled from the spec: the median that \<open>update_median_feeds\<close> computes; its body is in
  asset\_object.cpp, which is missing. The specification (section 4.2) says that the
  median is taken coordinate by coordinate, each coordinate independently, and that an
  even count takes the lower of the two middle values.
\<close>

definition lower_median :: "'a::linorder list \<Rightarrow> 'a" where
  "lower_median xs = sort xs ! ((length xs - 1) div 2)"

definition median_feed :: "'p::linorder price_feed list \<Rightarrow> 'p price_feed" where
  "median_feed fs =
     \<lparr>feed_settlement_price = lower_median (map feed_settlement_price fs),
      max_collateral_ratio = lower_median (map max_collateral_ratio fs)\<rparr>"

text \<open>
  Modelled from the spec: the selection of \<open>update_median_feeds\<close>. The specification
  (section 4.2) says that it selects the feeds whose publisher is authorized (the set is
  supplied from outside) and whose entry is not stale by the feed lifetime. Here an entry
  is stale from the time its own expiration time (timestamp plus lifetime) is reached, the
  comparison of \<open>feed_is_expired\<close>.
\<close>

definition feed_is_stale :: "32 word \<Rightarrow> time_point_sec \<Rightarrow> time_point_sec \<Rightarrow> bool" where
  "feed_is_stale lifetime now published = (published + lifetime \<le> now)"

definition included_feeds ::
  "(object_id_type \<Rightarrow> bool) \<Rightarrow> 'p asset_bitasset_data_object \<Rightarrow> time_point_sec
     \<Rightarrow> (object_id_type \<times> time_point_sec \<times> 'p price_feed) list" where
  "included_feeds authorized b now =
     filter (\<lambda>(publisher, published, f).
        authorized publisher \<and> \<not> feed_is_stale (feed_lifetime_sec (b_options b)) now published)
       (feeds b)"

text \<open>
  Modelled from the spec: \<open>publish_feed\<close> belongs to a missing evaluator. The
  specification (sections 4.2 and 8) says that \<open>publish_feed(publisher, price, now)\<close>
  upserts \<open>feeds[publisher] = (now, price)\<close> and discards nothing else, and that after
  global settlement it is rejected with \<open>AlreadySettled\<close>.
\<close>

definition publish_feed ::
  "('p \<Rightarrow> bool) \<Rightarrow> 'p asset_bitasset_data_object \<Rightarrow> object_id_type \<Rightarrow> 'p price_feed
     \<Rightarrow> time_point_sec \<Rightarrow> error + 'p asset_bitasset_data_object" where
  "publish_feed is_null b publisher f now =
     (if has_settlement is_null b then Inl AlreadySettled
      else Inr (b\<lparr>feeds := AList.update publisher (now, f) (feeds b)\<rparr>))"

text \<open>
  Modelled from the spec: \<open>update_median_feeds\<close> (the specification's \<open>recompute\<close>) is
  declared in the header and defined in asset\_object.cpp, which is missing. The
  specification (sections 4.2 and 8) says that it sets \<open>current_feed\<close> to the
  coordinate-wise median of the selected observations and \<open>current_feed_publication_time\<close>
  to the minimum timestamp among the included feeds, and that after global settlement it
  is rejected with \<open>AlreadySettled\<close> and changes nothing. The specification does not say
  what it produces when no feed is selected; the record is then left as it is.
\<close>

definition update_median_feeds ::
  "('p \<Rightarrow> bool) \<Rightarrow> (object_id_type \<Rightarrow> bool) \<Rightarrow> 'p::linorder asset_bitasset_data_object
     \<Rightarrow> time_point_sec \<Rightarrow> error + 'p asset_bitasset_data_object" where
  "update_median_feeds is_null authorized b current_time =
     (if has_settlement is_null b then Inl AlreadySettled
      else let sel = included_feeds authorized b current_time
           in if sel = [] then Inr b
              else Inr (b\<lparr>current_feed := median_feed (map (\<lambda>(publisher, published, f). f) sel),
                          current_feed_publication_time :=
                            min_list (map (\<lambda>(publisher, published, f). published) sel)\<rparr>))"

text \<open>
  The order-statistic reading of the lower median \<open>m\<close> of \<open>xs\<close>: it is one of the
  values, fewer than half of the values are below it, and at least half are at most it.
\<close>

definition is_lower_median :: "'a::linorder list \<Rightarrow> 'a \<Rightarrow> bool" where
  "is_lower_median xs m =
     (m \<in> set xs
      \<and> 2 * length (filter (\<lambda>x. x < m) xs) < length xs
      \<and> length xs \<le> 2 * length (filter (\<lambda>x. x \<le> m) xs))"

section \<open>Settlement-volume throttle\<close>

text \<open>
  Modelled from the spec: \<open>max_force_settlement_volume\<close> is declared in the header and
  defined in asset\_object.cpp, which is missing. The specification (section 4.4) says that
  it returns the configured maximum settlement percentage applied to \<open>current_supply\<close> as
  a fixed-point percentage, rounded down. The fixed-point value of 100 percent is a
  constant of a missing header and is the argument \<open>hundred_percent\<close>.
\<close>

definition max_force_settlement_volume ::
  "nat \<Rightarrow> 'p asset_bitasset_data_object \<Rightarrow> share_type \<Rightarrow> share_type" where
  "max_force_settlement_volume hundred_percent b current_supply =
     (current_supply * int (max_force_settlement_pct (b_options b))) div int hundred_percent"

text \<open>
  Modelled from the spec: the throttle of force settlements belongs to a missing
  evaluator. The specification (section 4.4) says that a request whose volume would push
  \<open>force_settled_volume\<close> above the cap is rejected with \<open>ExceedsSettlementBudget\<close> rather
  than partially filled, and that \<open>force_settled_volume\<close> accumulates the consumed volume.
\<close>

definition request_settlement_volume ::
  "nat \<Rightarrow> 'p asset_bitasset_data_object \<Rightarrow> share_type \<Rightarrow> share_type
     \<Rightarrow> error + 'p asset_bitasset_data_object" where
  "request_settlement_volume hundred_percent b current_supply volume =
     (if force_settled_volume b + volume
           > max_force_settlement_volume hundred_percent b current_supply
      then Inl ExceedsSettlementBudget
      else Inr (b\<lparr>force_settled_volume := force_settled_volume b + volume\<rparr>))"

section \<open>Settlement state machine\<close>

text \<open>
  Modelled from the spec: global settlement is an operation of a missing evaluator. The
  specification (section 4.3) says that it requires an asset that is market-issued and has
  the global-settle permission, and, for a prediction market, a price of at most 1:1
  (\<open>PriceExceedsCap\<close>); that it sets \<open>settlement_price\<close> to the supplied price and records
  the collateral total in \<open>settlement_fund\<close>; and that the state \<open>GlobalSettled\<close> is
  terminal. The comparison of a price with 1:1 is an operation of the price type and is
  the argument \<open>exceeds_cap\<close>. The specification names no failure for a missing
  permission; it is \<open>GlobalSettleNotPermitted\<close> here.
\<close>

definition globally_settle ::
  "(asset_issuer_permission_flags \<Rightarrow> 'w::semiring_bit_operations) \<Rightarrow> ('p \<Rightarrow> bool) \<Rightarrow> ('p \<Rightarrow> bool)
     \<Rightarrow> 'w asset_object \<Rightarrow> 'p asset_bitasset_data_object \<Rightarrow> 'p \<Rightarrow> share_type
     \<Rightarrow> error + 'p asset_bitasset_data_object" where
  "globally_settle bits is_null exceeds_cap a b price collateral =
     (if has_settlement is_null b then Inl AlreadySettled
      else if \<not> (is_market_issued a \<and> can_global_settle bits a) then Inl GlobalSettleNotPermitted
      else if is_prediction_market b \<and> exceeds_cap price then Inl PriceExceedsCap
      else Inr (b\<lparr>settlement_price := price, settlement_fund := collateral\<rparr>))"

text \<open>
  Modelled from the spec: force settlement is an operation of a missing evaluator. The
  specification (sections 3 and 4.3) says that a force settlement of an asset that is not
  settled is subject to the throttle, and that once the asset is settled a request
  executes immediately at \<open>settlement_price\<close>, debits \<open>settlement_fund\<close> and fails when the
  fund is insufficient, \<open>force_settled_volume\<close> being frozen. The amount a price pays for a
  volume is an operation of the price type and is the argument \<open>payout\<close>. The
  specification names no failure for an insufficient fund; it is
  \<open>InsufficientSettlementFund\<close> here.
\<close>

definition force_settle ::
  "nat \<Rightarrow> ('p \<Rightarrow> bool) \<Rightarrow> ('p \<Rightarrow> share_type \<Rightarrow> share_type) \<Rightarrow> 'p asset_bitasset_data_object
     \<Rightarrow> share_type \<Rightarrow> share_type \<Rightarrow> error + 'p asset_bitasset_data_object" where
  "force_settle hundred_percent is_null payout b current_supply volume =
     (if has_settlement is_null b then
        if settlement_fund b < payout (settlement_price b) volume then Inl InsufficientSettlementFund
        else Inr (b\<lparr>settlement_fund := settlement_fund b - payout (settlement_price b) volume\<rparr>)
      else request_settlement_volume hundred_percent b current_supply volume)"

text \<open>
  Modelled from the spec: the reset of the settled volume is an operation the scheduler
  calls, missing from the header. The specification (sections 3 and 4.4) says that
  \<open>force_settled_volume\<close> is reset to zero once per maintenance interval and that it
  accepts no write once the asset is settled.
\<close>

definition reset_force_settled_volume ::
  "('p \<Rightarrow> bool) \<Rightarrow> 'p asset_bitasset_data_object \<Rightarrow> error + 'p asset_bitasset_data_object" where
  "reset_force_settled_volume is_null b =
     (if has_settlement is_null b then Inl AlreadySettled
      else Inr (b\<lparr>force_settled_volume := 0\<rparr>))"

text \<open>
  The operations on the bitasset data of one asset, and what the operations read from
  outside: the bit values, the operations of the price type, the fixed-point value of 100
  percent and the authorized publishers.
\<close>

datatype 'p bitasset_op =
    Publish_feed object_id_type "'p price_feed" time_point_sec
  | Recompute time_point_sec
  | Global_settle 'p share_type
  | Force_settle share_type share_type
  | Reset_volume

record ('w, 'p) environment =
  env_bits :: "asset_issuer_permission_flags \<Rightarrow> 'w"
  env_is_null :: "'p \<Rightarrow> bool"
  env_exceeds_cap :: "'p \<Rightarrow> bool"
  env_payout :: "'p \<Rightarrow> share_type \<Rightarrow> share_type"
  env_hundred_percent :: nat
  env_authorized :: "object_id_type \<Rightarrow> bool"

fun apply_op ::
  "('w::semiring_bit_operations, 'p::linorder) environment \<Rightarrow> 'w asset_object
     \<Rightarrow> 'p asset_bitasset_data_object \<Rightarrow> 'p bitasset_op \<Rightarrow> error + 'p asset_bitasset_data_object" where
  "apply_op env a b (Publish_feed publisher f now) = publish_feed (env_is_null env) b publisher f now"
| "apply_op env a b (Recompute now) =
     update_median_feeds (env_is_null env) (env_authorized env) b now"
| "apply_op env a b (Global_settle price collateral) =
     globally_settle (env_bits env) (env_is_null env) (env_exceeds_cap env) a b price collateral"
| "apply_op env a b (Force_settle current_supply volume) =
     force_settle (env_hundred_percent env) (env_is_null env) (env_payout env) b current_supply volume"
| "apply_op env a b Reset_volume = reset_force_settled_volume (env_is_null env) b"

fun is_feed_op :: "'p bitasset_op \<Rightarrow> bool" where
  "is_feed_op (Publish_feed publisher f now) = True"
| "is_feed_op (Recompute now) = True"
| "is_feed_op (Global_settle price collateral) = False"
| "is_feed_op (Force_settle current_supply volume) = False"
| "is_feed_op Reset_volume = False"

text \<open>
  A sequence of operations: a rejected operation leaves the record as it is and the next
  one is applied to it.
\<close>

fun apply_ops ::
  "('w::semiring_bit_operations, 'p::linorder) environment \<Rightarrow> 'w asset_object
     \<Rightarrow> 'p asset_bitasset_data_object \<Rightarrow> 'p bitasset_op list \<Rightarrow> 'p asset_bitasset_data_object" where
  "apply_ops env a b [] = b"
| "apply_ops env a b (x # xs) =
     (case apply_op env a b x of
        Inl e \<Rightarrow> apply_ops env a b xs
      | Inr b' \<Rightarrow> apply_ops env a b' xs)"

section \<open>The asset store\<close>

text \<open>
  Modelled from the spec: the header declares the index of asset objects
  (\<open>asset_object_multi_index_type\<close>, with \<open>ordered_unique\<close> on \<open>by_symbol\<close>); the store
  that inserts into it is missing. The specification (sections 4.1 and 7) says that the
  store is a collection keyed by a monotonically assigned identity, and that an insertion
  whose unique secondary key (the symbol) collides fails with \<open>DuplicateSymbol\<close> and
  leaves the store unchanged.
\<close>

record 'w asset_store =
  next_id :: object_id_type
  objects :: "'w asset_object list"

text \<open>
  Modelled from the spec: the lookup by the unique secondary key \<open>by_symbol\<close> and the
  insertion (specification, section 4.1), which assigns the next identity and fails with
  \<open>DuplicateSymbol\<close> when an object with the same symbol is stored.
\<close>

definition find_by_symbol :: "'w asset_store \<Rightarrow> string \<Rightarrow> 'w asset_object option" where
  "find_by_symbol st s = find (\<lambda>x. symbol x = s) (objects st)"

definition insert_asset :: "'w asset_store \<Rightarrow> 'w asset_object \<Rightarrow> error + 'w asset_store" where
  "insert_asset st a =
     (if find_by_symbol st (symbol a) \<noteq> None then Inl DuplicateSymbol
      else Inr \<lparr>next_id = Suc (next_id st),
                objects = objects st @ [a\<lparr>object_id := next_id st\<rparr>]\<rparr>)"

text \<open>
  Modelled from the spec: \<open>is_valid_symbol\<close> is declared in the header and defined in a
  missing file. The header documents it: it returns true if the symbol is a valid ticker
  symbol and false otherwise, and does not look at the registered assets. The
  specification (section 3) speaks of a ticker-symbol grammar and does not give it; the
  grammar is the argument \<open>ticker_grammar\<close>.
\<close>

definition is_valid_symbol :: "(string \<Rightarrow> bool) \<Rightarrow> string \<Rightarrow> bool" where
  "is_valid_symbol ticker_grammar s = ticker_grammar s"

text \<open>
  Modelled from the spec: a sequence of insertions into the store (specification,
  sections 4.1 and 7). A failed insertion leaves the store unchanged, and the next one is
  applied to it. \<open>insert_outcomes\<close> lists what each insertion returned, \<open>insert_all\<close> is
  the store after the last one.
\<close>

fun insert_all :: "'w asset_store \<Rightarrow> 'w asset_object list \<Rightarrow> 'w asset_store" where
  "insert_all st [] = st"
| "insert_all st (a # as) =
     (case insert_asset st a of
        Inl e \<Rightarrow> insert_all st as
      | Inr st' \<Rightarrow> insert_all st' as)"

fun insert_outcomes ::
  "'w asset_store \<Rightarrow> 'w asset_object list \<Rightarrow> (error + 'w asset_store) list" where
  "insert_outcomes st [] = []"
| "insert_outcomes st (a # as) =
     (case insert_asset st a of
        Inl e \<Rightarrow> Inl e # insert_outcomes st as
      | Inr st' \<Rightarrow> Inr st' # insert_outcomes st' as)"

text \<open>The insertions of a sequence that succeeded with the symbol \<open>s\<close>.\<close>

definition inserted_with_symbol ::
  "string \<Rightarrow> 'w asset_store \<Rightarrow> 'w asset_object list \<Rightarrow> ('w asset_object \<times> (error + 'w asset_store)) list" where
  "inserted_with_symbol s st as =
     filter (\<lambda>(a, r). symbol a = s \<and> \<not> isl r) (zip as (insert_outcomes st as))"

section \<open>Concrete inputs\<close>

text \<open>
  An assignment of bits to the enumerators, an asset, a bitasset record, feeds, an
  environment, a ticker grammar (capital letters) and a store, used to evaluate the
  functions at concrete inputs. Prices are integers there, the null price is 0, and
  publisher 9 is not authorized.
\<close>

definition sample_bits :: "asset_issuer_permission_flags \<Rightarrow> 16 word" where
  "sample_bits f =
     (case f of charge_market_fee \<Rightarrow> 0x01 | override_authority \<Rightarrow> 0x04
      | transfer_restricted \<Rightarrow> 0x08 | disable_force_settle \<Rightarrow> 0x10
      | global_settle \<Rightarrow> 0x20 | disable_confidential \<Rightarrow> 0x40)"

definition sample_asset :: "16 word \<Rightarrow> 16 word \<Rightarrow> object_id_type option \<Rightarrow> 16 word asset_object" where
  "sample_asset fl perm bid =
     \<lparr>object_id = 1, symbol = ''USD'', precision = 2, issuer = 0,
      options = \<lparr>flags = fl, issuer_permissions = perm, max_supply = 1000000\<rparr>,
      dynamic_asset_data_id = 1, bitasset_data_id = bid, buyback_account = None,
      dividend_data_id = None\<rparr>"

definition sample_bitasset :: "int asset_bitasset_data_object" where
  "sample_bitasset =
     \<lparr>b_options = \<lparr>feed_lifetime_sec = 86400, max_force_settlement_pct = 1000\<rparr>,
      feeds = [],
      current_feed = \<lparr>feed_settlement_price = 0, max_collateral_ratio = 0\<rparr>,
      current_feed_publication_time = 1000,
      is_prediction_market = False,
      force_settled_volume = 0,
      settlement_price = 0,
      settlement_fund = 0\<rparr>"

definition sample_is_null :: "int \<Rightarrow> bool" where
  "sample_is_null p = (p = 0)"

definition sample_authorized :: "object_id_type \<Rightarrow> bool" where
  "sample_authorized publisher = (publisher \<noteq> 9)"

definition sample_feed :: "int \<Rightarrow> nat \<Rightarrow> int price_feed" where
  "sample_feed p r = \<lparr>feed_settlement_price = p, max_collateral_ratio = r\<rparr>"

definition sample_feeds :: "(object_id_type \<times> time_point_sec \<times> int price_feed) list" where
  "sample_feeds =
     [(1, 1000, sample_feed 10 1750), (2, 1010, sample_feed 20 1700),
      (4, 5, sample_feed 500 1000), (9, 1005, sample_feed 700 2000)]"

definition sample_env :: "(16 word, int) environment" where
  "sample_env =
     \<lparr>env_bits = sample_bits, env_is_null = sample_is_null, env_exceeds_cap = (\<lambda>p. 1 < p),
      env_payout = (\<lambda>p v. p * v), env_hundred_percent = 10000,
      env_authorized = sample_authorized\<rparr>"

definition sample_ticker_grammar :: "string \<Rightarrow> bool" where
  "sample_ticker_grammar s = (s \<noteq> [] \<and> list_all (\<lambda>c. c \<in> set ''ABCDEFGHIJKLMNOPQRSTUVWXYZ'') s)"

definition sample_store :: "16 word asset_store" where
  "sample_store = \<lparr>next_id = 7, objects = []\<rparr>"

definition sample_usd :: "16 word asset_object" where
  "sample_usd = sample_asset 0 0 None"

definition sample_eur :: "16 word asset_object" where
  "sample_eur = (sample_asset 0 0 None)\<lparr>symbol := ''EUR''\<rparr>"

definition sample_usd2 :: "16 word asset_object" where
  "sample_usd2 = sample_asset 1 1 (Some 3)"

definition sample_db :: "object_id_type \<rightharpoonup> int asset_bitasset_data_object" where
  "sample_db = [3 \<mapsto> sample_bitasset\<lparr>is_prediction_market := True\<rparr>]"

section \<open>Feed expiration\<close>

text \<open>
  C3. The expiration time is the publication time of the current feed plus the feed
  lifetime (an addition of 32-bit seconds, which wraps around); \<open>feed_is_expired\<close> holds
  exactly when the given time is at or after the expiration time, and
  \<open>feed_is_expired_before_hardfork_615\<close> exactly when it is at or before it.
\<close>

theorem feed_expiration_predicates:
  "feed_expiration_time b = current_feed_publication_time b + feed_lifetime_sec (b_options b)
   \<and> unat (feed_expiration_time b) =
       (unat (current_feed_publication_time b) + unat (feed_lifetime_sec (b_options b))) mod 2 ^ 32
   \<and> feed_is_expired b now = (now \<ge> feed_expiration_time b)
   \<and> feed_is_expired_before_hardfork_615 b now = (now \<le> feed_expiration_time b)"
  by (simp add: feed_expiration_time_def feed_is_expired_def
      feed_is_expired_before_hardfork_615_def unat_word_ariths)

theorem feed_expiration_predicates_witness:
  "feed_expiration_time sample_bitasset = 87400
   \<and> feed_is_expired sample_bitasset 87400
   \<and> feed_is_expired_before_hardfork_615 sample_bitasset 87400
   \<and> \<not> feed_is_expired sample_bitasset 87399
   \<and> \<not> feed_is_expired_before_hardfork_615 sample_bitasset 87401"
  using feed_expiration_predicates [of sample_bitasset 87400]
    feed_expiration_predicates [of sample_bitasset 87399]
    feed_expiration_predicates [of sample_bitasset 87401]
  by (simp add: sample_bitasset_def)

section \<open>Predicates of the asset record\<close>

text \<open>
  C8. \<open>has_settlement\<close> holds exactly when the settlement price is not null, and an
  asset is market-issued exactly when its reference to bitasset data is present.
\<close>

theorem settlement_and_market_issued:
  "has_settlement is_null b = (\<not> is_null (settlement_price b))
   \<and> is_market_issued a = (\<exists>i. bitasset_data_id a = Some i)"
  by (simp add: has_settlement_def is_market_issued_def)

theorem settlement_and_market_issued_witness:
  "\<not> has_settlement sample_is_null sample_bitasset
   \<and> has_settlement sample_is_null (sample_bitasset\<lparr>settlement_price := 5\<rparr>)
   \<and> is_market_issued (sample_asset 0 0 (Some 3))
   \<and> \<not> is_market_issued (sample_asset 0 0 None)"
  using settlement_and_market_issued [of sample_is_null sample_bitasset "sample_asset 0 0 (Some 3)"]
    settlement_and_market_issued [of sample_is_null "sample_bitasset\<lparr>settlement_price := 5\<rparr>"
      "sample_asset 0 0 None"]
  by (simp add: sample_bitasset_def sample_asset_def sample_is_null_def)

text \<open>
  C4, as the specification states it: \<open>can_force_settle\<close> is false for every asset whose
  bitasset data is a prediction market. It is not: the function reads the
  \<open>disable_force_settle\<close> bit of \<open>options.flags\<close> only. The asset below refers to bitasset
  data that is a prediction market, has no flag set, and may be force-settled according to
  \<open>can_force_settle\<close>.
\<close>

theorem can_force_settle_prediction_market_counterexample:
  "bitasset_data sample_db (sample_asset 0 0 (Some 3))
     = Some (sample_bitasset\<lparr>is_prediction_market := True\<rparr>)
   \<and> is_prediction_market (sample_bitasset\<lparr>is_prediction_market := True\<rparr>)
   \<and> can_force_settle sample_bits (sample_asset 0 0 (Some 3))"
  by (simp add: bitasset_data_def sample_db_def sample_asset_def can_force_settle_def)

text \<open>
  C4, amended: for an asset whose bitasset data is a prediction market,
  \<open>can_force_settle\<close> is false exactly when the \<open>disable_force_settle\<close> bit is set in
  \<open>options.flags\<close>; the prediction-market flag has no part in it.
\<close>

theorem can_force_settle_flag_only:
  "bitasset_data db a = Some b \<Longrightarrow> is_prediction_market b \<Longrightarrow>
     can_force_settle bits a = (flags (options a) AND bits disable_force_settle = 0)"
  by (simp add: can_force_settle_def)

theorem can_force_settle_flag_only_witness:
  "bitasset_data sample_db (sample_asset 0x10 0 (Some 3))
     = Some (sample_bitasset\<lparr>is_prediction_market := True\<rparr>)
   \<and> is_prediction_market (sample_bitasset\<lparr>is_prediction_market := True\<rparr>)
   \<and> \<not> can_force_settle sample_bits (sample_asset 0x10 0 (Some 3))"
proof -
  have d: "bitasset_data sample_db (sample_asset 0x10 0 (Some 3))
     = Some (sample_bitasset\<lparr>is_prediction_market := True\<rparr>)"
    by (simp add: bitasset_data_def sample_db_def sample_asset_def)
  have p: "is_prediction_market (sample_bitasset\<lparr>is_prediction_market := True\<rparr>)"
    by simp
  show ?thesis
    using d p can_force_settle_flag_only [OF d p, of sample_bits]
    by (simp add: sample_asset_def sample_bits_def)
qed

section \<open>Validation of the options\<close>

text \<open>
  C5. For an asset that is not market-issued, \<open>validate\<close> succeeds exactly when the
  \<open>disable_force_settle\<close> bit and the \<open>global_settle\<close> bit are clear in both
  \<open>options.flags\<close> and \<open>options.issuer_permissions\<close>, and fails with
  \<open>InvalidAssetOptions\<close> when one of the four bits is set. For a market-issued asset it
  always succeeds.
\<close>

theorem validate_uia_bits:
  "(\<not> is_market_issued a \<longrightarrow>
      (validate bits a = Inr ()) =
        (flags (options a) AND bits disable_force_settle = 0
         \<and> flags (options a) AND bits global_settle = 0
         \<and> issuer_permissions (options a) AND bits disable_force_settle = 0
         \<and> issuer_permissions (options a) AND bits global_settle = 0)
      \<and> (validate bits a = Inl InvalidAssetOptions) =
        (\<not> (flags (options a) AND bits disable_force_settle = 0
         \<and> flags (options a) AND bits global_settle = 0
         \<and> issuer_permissions (options a) AND bits disable_force_settle = 0
         \<and> issuer_permissions (options a) AND bits global_settle = 0)))
   \<and> (is_market_issued a \<longrightarrow> validate bits a = Inr ())"
  by (auto simp: validate_def)

theorem validate_uia_bits_witness:
  "\<not> is_market_issued (sample_asset 0x10 0 None)
   \<and> validate sample_bits (sample_asset 0x10 0 None) = Inl InvalidAssetOptions
   \<and> validate sample_bits (sample_asset 0 0x20 None) = Inl InvalidAssetOptions
   \<and> validate sample_bits (sample_asset 0x01 0x4F None) = Inr ()
   \<and> is_market_issued (sample_asset 0x30 0x30 (Some 3))
   \<and> validate sample_bits (sample_asset 0x30 0x30 (Some 3)) = Inr ()"
  using validate_uia_bits [of "sample_asset 0x10 0 None" sample_bits]
    validate_uia_bits [of "sample_asset 0 0x20 None" sample_bits]
    validate_uia_bits [of "sample_asset 0x01 0x4F None" sample_bits]
    validate_uia_bits [of "sample_asset 0x30 0x30 (Some 3)" sample_bits]
  by (simp add: sample_asset_def sample_bits_def is_market_issued_def)

section \<open>Decimal strings\<close>

lemma pad_digits_unfold:
  "0 < k \<Longrightarrow> pad_digits k r = pad_digits (k - 1) (r div 10) @ [digit_char (r mod 10)]"
  by (cases k) simp_all

lemma of_char_digit_char: "d < 10 \<Longrightarrow> (of_char (digit_char d) :: nat) = 48 + d"
proof -
  assume "d < 10"
  then have "d \<in> {0, 1, 2, 3, 4, 5, 6, 7, 8, 9}" by auto
  then show ?thesis by (auto simp: digit_char_def)
qed

lemma is_digit_digit_char: "d < 10 \<Longrightarrow> is_digit (digit_char d)"
  by (simp add: is_digit_def of_char_digit_char)

lemma digit_val_digit_char: "d < 10 \<Longrightarrow> digit_val (digit_char d) = d"
  by (simp add: digit_val_def of_char_digit_char)

lemma not_digit_marks:
  "\<not> is_digit CHR ''-''" "\<not> is_digit CHR ''+''" "\<not> is_digit CHR ''.''"
  by (simp_all add: is_digit_def)

lemma nat_to_string_digits: "list_all is_digit (nat_to_string n)"
proof (induction n rule: nat_to_string.induct)
  case (1 n)
  show ?case
  proof (cases "n < 10")
    case True
    then show ?thesis
      by (subst nat_to_string.simps) (simp add: is_digit_digit_char)
  next
    case False
    with 1 show ?thesis
      by (subst nat_to_string.simps) (simp add: is_digit_digit_char)
  qed
qed

lemma nat_to_string_nonempty: "nat_to_string n \<noteq> []"
  by (subst nat_to_string.simps) simp

lemma string_to_nat_snoc: "string_to_nat (s @ [c]) = 10 * string_to_nat s + digit_val c"
  by (simp add: string_to_nat_def)

lemma string_to_nat_nat_to_string: "string_to_nat (nat_to_string n) = n"
proof (induction n rule: nat_to_string.induct)
  case (1 n)
  show ?case
  proof (cases "n < 10")
    case True
    then show ?thesis
      by (subst nat_to_string.simps) (simp add: string_to_nat_def digit_val_digit_char)
  next
    case False
    with 1 have "string_to_nat (nat_to_string (n div 10)) = n div 10" by simp
    with False show ?thesis
      by (subst nat_to_string.simps) (simp add: string_to_nat_snoc digit_val_digit_char)
  qed
qed

lemma length_pad_digits: "length (pad_digits k r) = k"
  by (induction k arbitrary: r) simp_all

lemma pad_digits_digits: "list_all is_digit (pad_digits k r)"
  by (induction k arbitrary: r) (simp_all add: is_digit_digit_char)

lemma string_to_nat_pad_digits: "string_to_nat (pad_digits k r) = r mod 10 ^ k"
proof (induction k arbitrary: r)
  case 0
  show ?case by (simp add: string_to_nat_def)
next
  case (Suc k)
  have "r mod (10 * 10 ^ k) = 10 * (r div 10 mod 10 ^ k) + r mod 10"
    by (simp add: mod_mult2_eq)
  with Suc show ?case
    by (simp add: string_to_nat_snoc digit_val_digit_char)
qed


lemma takeWhile_digits_tail:
  assumes "list_all is_digit ip" "rest = [] \<or> (\<exists>fp. rest = CHR ''.'' # fp)"
  shows "takeWhile is_digit (ip @ rest) = ip" "dropWhile is_digit (ip @ rest) = rest"
  using assms by (auto simp: list_all_iff not_digit_marks takeWhile_append2 dropWhile_append2)

lemma split_sign_digit:
  assumes "ip \<noteq> []" "list_all is_digit ip"
  shows "split_sign (ip @ rest) = (1, ip @ rest)"
proof -
  from assms obtain c r where ip: "ip = c # r" and c: "is_digit c"
    by (cases ip) auto
  from c have "c \<noteq> CHR ''-''" "c \<noteq> CHR ''+''"
    using not_digit_marks by auto
  then show ?thesis by (simp add: split_sign_def ip)
qed

lemma split_sign_cases:
  "split_sign s = (sg, body) \<Longrightarrow>
     (sg = - 1 \<and> s = CHR ''-'' # body) \<or> (sg = 1 \<and> s = CHR ''+'' # body) \<or> (sg = 1 \<and> s = body)"
  by (auto simp: split_sign_def split: list.splits if_splits)

lemma amount_from_string_body:
  assumes "split_sign s = (sg, ip @ rest)" "ip \<noteq> []" "list_all is_digit ip"
  shows "rest = [] \<Longrightarrow> amount_from_string a s =
           Inr (asset_object_amount a (sg * int (string_to_nat ip * 10 ^ unat (precision a))))"
    and "rest = CHR ''.'' # fp \<Longrightarrow> list_all is_digit fp \<Longrightarrow> length fp \<le> unat (precision a) \<Longrightarrow>
         amount_from_string a s =
           Inr (asset_object_amount a (sg * int (string_to_nat ip * 10 ^ unat (precision a)
                  + string_to_nat fp * 10 ^ (unat (precision a) - length fp))))"
proof -
  assume r: "rest = []"
  have "takeWhile is_digit (ip @ rest) = ip" "dropWhile is_digit (ip @ rest) = rest"
    using takeWhile_digits_tail [of ip rest] assms(3) r by simp_all
  then show "amount_from_string a s =
           Inr (asset_object_amount a (sg * int (string_to_nat ip * 10 ^ unat (precision a))))"
    unfolding amount_from_string_def Let_def assms(1) prod.case
    using assms(2) r by (simp only: list.case if_False)
next
  assume r: "rest = CHR ''.'' # fp" and fp: "list_all is_digit fp" "length fp \<le> unat (precision a)"
  have "takeWhile is_digit (ip @ rest) = ip" "dropWhile is_digit (ip @ rest) = rest"
    using takeWhile_digits_tail [of ip rest] assms(3) r by simp_all
  then show "amount_from_string a s =
           Inr (asset_object_amount a (sg * int (string_to_nat ip * 10 ^ unat (precision a)
                  + string_to_nat fp * 10 ^ (unat (precision a) - length fp))))"
    unfolding amount_from_string_def Let_def assms(1) prod.case
    using assms(2) r fp by (simp only: list.case if_False if_True simp_thms)
qed

lemma split_sign_amount_to_string:
  "split_sign ((if x < 0 then ''-'' else []) @ nat_to_string q @ rest)
     = (if x < (0::int) then - 1 else 1, nat_to_string q @ rest)"
proof (cases "x < 0")
  case True
  then show ?thesis by (simp add: split_sign_def)
next
  case False
  then show ?thesis
    using split_sign_digit [OF nat_to_string_nonempty nat_to_string_digits, of q rest] by simp
qed

lemma amount_roundtrip:
  "amount_from_string a (amount_to_string a x) = Inr (asset_object_amount a x)"
proof -
  define p where "p = unat (precision a)"
  define n where "n = nat \<bar>x\<bar>"
  define rest where "rest = (if p = 0 then [] else ''.'' @ pad_digits p (n mod 10 ^ p))"
  define sg :: int where "sg = (if x < 0 then - 1 else 1)"
  have s: "amount_to_string a x = (if x < 0 then ''-'' else []) @ nat_to_string (n div 10 ^ p) @ rest"
    by (simp add: amount_to_string_def Let_def p_def n_def rest_def)
  have sp: "split_sign (amount_to_string a x) = (sg, nat_to_string (n div 10 ^ p) @ rest)"
    unfolding s sg_def by (rule split_sign_amount_to_string)
  have val: "sg * int n = x"
    by (simp add: sg_def n_def)
  show ?thesis
  proof (cases "p = 0")
    case True
    then have "rest = []" by (simp add: rest_def)
    from amount_from_string_body(1) [OF sp nat_to_string_nonempty nat_to_string_digits this, where a = a]
    show ?thesis
      using True val unfolding p_def by (simp add: string_to_nat_nat_to_string)
  next
    case False
    then have rest: "rest = CHR ''.'' # pad_digits p (n mod 10 ^ p)" by (simp add: rest_def)
    have "amount_from_string a (amount_to_string a x) =
        Inr (asset_object_amount a (sg * int (string_to_nat (nat_to_string (n div 10 ^ p)) * 10 ^ p
          + string_to_nat (pad_digits p (n mod 10 ^ p)) * 10 ^ (p - length (pad_digits p (n mod 10 ^ p))))))"
      using amount_from_string_body(2) [OF sp nat_to_string_nonempty nat_to_string_digits rest
          pad_digits_digits, where a = a]
      by (simp add: p_def length_pad_digits)
    also have "string_to_nat (nat_to_string (n div 10 ^ p)) * 10 ^ p
          + string_to_nat (pad_digits p (n mod 10 ^ p)) * 10 ^ (p - length (pad_digits p (n mod 10 ^ p))) = n"
      using div_mult_mod_eq [of n "10 ^ p"]
      by (simp add: string_to_nat_nat_to_string string_to_nat_pad_digits length_pad_digits)
    finally show ?thesis using val by simp
  qed
qed

lemma amount_from_string_well_formed:
  assumes "well_formed_amount (unat (precision a)) s"
  shows "\<exists>v. amount_from_string a s = Inr v"
proof -
  from assms obtain sg ip rest where s: "s = sg @ ip @ rest"
    and sg: "sg = [] \<or> sg = ''-'' \<or> sg = ''+''"
    and ip: "ip \<noteq> []" "list_all is_digit ip"
    and rest: "rest = [] \<or> (\<exists>fp. rest = CHR ''.'' # fp \<and> list_all is_digit fp \<and> length fp \<le> unat (precision a))"
    unfolding well_formed_amount_def by blast
  have "\<exists>k. split_sign s = (k, ip @ rest)"
  proof (cases "sg = []")
    case True
    then show ?thesis using split_sign_digit [OF ip, of rest] by (simp add: s)
  next
    case False
    with sg show ?thesis by (auto simp: s split_sign_def)
  qed
  then obtain k where sp: "split_sign s = (k, ip @ rest)" ..
  from rest show ?thesis
  proof
    assume "rest = []"
    from amount_from_string_body(1) [OF sp ip this] show ?thesis by blast
  next
    assume "\<exists>fp. rest = CHR ''.'' # fp \<and> list_all is_digit fp \<and> length fp \<le> unat (precision a)"
    then obtain fp where "rest = CHR ''.'' # fp" "list_all is_digit fp" "length fp \<le> unat (precision a)"
      by blast
    from amount_from_string_body(2) [OF sp ip this] show ?thesis by blast
  qed
qed

lemma amount_from_string_accepts:
  assumes "amount_from_string a s = Inr v"
  shows "well_formed_amount (unat (precision a)) s"
proof -
  obtain k body where sp: "split_sign s = (k, body)" by (cases "split_sign s")
  define ip where "ip = takeWhile is_digit body"
  define rest where "rest = dropWhile is_digit body"
  have body: "body = ip @ rest" by (simp add: ip_def rest_def)
  have digits: "list_all is_digit ip"
    by (auto simp: ip_def list_all_iff dest: set_takeWhileD)
  from assms sp have ip: "ip \<noteq> []"
    by (auto simp: amount_from_string_def Let_def ip_def split: if_splits)
  from assms sp ip have rest: "rest = [] \<or> (\<exists>fp. rest = CHR ''.'' # fp \<and> list_all is_digit fp
      \<and> length fp \<le> unat (precision a))"
    by (auto simp: amount_from_string_def Let_def ip_def rest_def split: if_splits list.splits)
  from split_sign_cases [OF sp] obtain sg where "s = sg @ body" "sg = [] \<or> sg = ''-'' \<or> sg = ''+''"
    by auto
  with body ip digits rest show ?thesis
    unfolding well_formed_amount_def by blast
qed

lemma amount_from_string_result:
  "amount_from_string a s = Inl e \<Longrightarrow> e = InvalidAmountFormat"
  by (auto simp: amount_from_string_def Let_def split: if_splits list.splits prod.splits)


text \<open>
  C7. Parsing the string written for an amount gives the amount back, as an amount of
  this asset. The parser accepts exactly the strings made of an optional sign, digits and
  an optional point followed by at most \<open>precision\<close> digits, and answers
  \<open>InvalidAmountFormat\<close> to every other string.
\<close>

theorem amount_string_roundtrip:
  "amount_from_string a (amount_to_string a x) = Inr \<lparr>amount = x, asset_id = object_id a\<rparr>
   \<and> (\<exists>v. amount_from_string a s = Inr v) = well_formed_amount (unat (precision a)) s
   \<and> (amount_from_string a s = Inl InvalidAmountFormat)
       = (\<not> well_formed_amount (unat (precision a)) s)"
proof -
  have acc: "(\<exists>v. amount_from_string a s = Inr v) = well_formed_amount (unat (precision a)) s"
    using amount_from_string_well_formed amount_from_string_accepts by blast
  have "(amount_from_string a s = Inl InvalidAmountFormat) = (\<not> (\<exists>v. amount_from_string a s = Inr v))"
    using amount_from_string_result [of a s] by (cases "amount_from_string a s") auto
  with acc show ?thesis
    by (simp add: amount_roundtrip asset_object_amount_def)
qed

theorem amount_string_roundtrip_witness:
  "amount_to_string (sample_asset 0 0 None) 12345 = ''123.45''
   \<and> amount_from_string (sample_asset 0 0 None) ''123.45'' = Inr \<lparr>amount = 12345, asset_id = 1\<rparr>
   \<and> amount_from_string (sample_asset 0 0 None) ''1.2.3'' = Inl InvalidAmountFormat
   \<and> \<not> well_formed_amount 2 ''1.2.3''"
proof -
  have p: "unat (precision (sample_asset 0 0 None)) = 2" "object_id (sample_asset 0 0 None) = 1"
    by (simp_all add: sample_asset_def)
  have w: "amount_to_string (sample_asset 0 0 None) 12345 = ''123.45''"
    by (simp add: amount_to_string_def p digit_char_def pad_digits_unfold nat_to_string.simps)
  have e: "amount_from_string (sample_asset 0 0 None) ''1.2.3'' = Inl InvalidAmountFormat"
    by (simp add: amount_from_string_def p split_sign_def is_digit_def)
  show ?thesis
    using amount_string_roundtrip [of "sample_asset 0 0 None" 12345 "''1.2.3''"] w e
    by (simp add: p)
qed

text \<open>
  C10. The overloads of \<open>amount_to_string\<close> and \<open>amount_to_pretty_string\<close> that take an
  \<open>asset\<close> return what the overloads on \<open>share_type\<close> return for its amount when its
  asset id is this asset's id, and fail on the assertion when it is not.
\<close>

theorem amount_to_string_asset_id:
  "(asset_id x = object_id a \<longrightarrow>
      amount_to_string_asset a x = Inr (amount_to_string a (amount x))
      \<and> amount_to_pretty_string_asset a x = Inr (amount_to_pretty_string a (amount x)))
   \<and> (asset_id x \<noteq> object_id a \<longrightarrow>
      amount_to_string_asset a x = Inl AssertFailed
      \<and> amount_to_pretty_string_asset a x = Inl AssertFailed)"
  by (simp add: amount_to_string_asset_def amount_to_pretty_string_asset_def)

theorem amount_to_string_asset_id_witness:
  "amount_to_string_asset (sample_asset 0 0 None) \<lparr>amount = 12345, asset_id = 1\<rparr> = Inr ''123.45''
   \<and> amount_to_pretty_string_asset (sample_asset 0 0 None) \<lparr>amount = 12345, asset_id = 1\<rparr>
       = Inr ''123.45 USD''
   \<and> amount_to_string_asset (sample_asset 0 0 None) \<lparr>amount = 12345, asset_id = 2\<rparr>
       = Inl AssertFailed
   \<and> amount_to_pretty_string_asset (sample_asset 0 0 None) \<lparr>amount = 12345, asset_id = 2\<rparr>
       = Inl AssertFailed"
proof -
  have p: "unat (precision (sample_asset 0 0 None)) = 2" "object_id (sample_asset 0 0 None) = 1"
    "symbol (sample_asset 0 0 None) = ''USD''"
    by (simp_all add: sample_asset_def)
  have w: "amount_to_string (sample_asset 0 0 None) 12345 = ''123.45''"
    by (simp add: amount_to_string_def p digit_char_def pad_digits_unfold nat_to_string.simps)
  show ?thesis
    using amount_to_string_asset_id [of "\<lparr>amount = 12345, asset_id = 1\<rparr>" "sample_asset 0 0 None"]
      amount_to_string_asset_id [of "\<lparr>amount = 12345, asset_id = 2\<rparr>" "sample_asset 0 0 None"]
    by (simp add: p w amount_to_pretty_string_def)
qed

section \<open>Median of the price feeds\<close>

text \<open>
  In a sorted list, fewer than \<open>k + 1\<close> elements are below the element at index \<open>k\<close>,
  and at least \<open>k + 1\<close> elements are at most it.
\<close>

lemma sorted_nth_below:
  assumes "sorted ys" "k < length ys"
  shows "length (filter (\<lambda>x. x < ys ! k) ys) \<le> k"
proof -
  have "\<forall>x \<in> set (drop k ys). \<not> x < ys ! k"
  proof
    fix x assume "x \<in> set (drop k ys)"
    then obtain j where "j < length (drop k ys)" "x = drop k ys ! j"
      by (auto simp: in_set_conv_nth)
    then have "x = ys ! (k + j)" "k + j < length ys" by auto
    with assms(1) have "ys ! k \<le> x" by (simp add: sorted_nth_mono)
    then show "\<not> x < ys ! k" by simp
  qed
  then have "filter (\<lambda>x. x < ys ! k) (drop k ys) = []" by (simp add: filter_empty_conv)
  moreover have "filter (\<lambda>x. x < ys ! k) ys
      = filter (\<lambda>x. x < ys ! k) (take k ys) @ filter (\<lambda>x. x < ys ! k) (drop k ys)"
    by (metis append_take_drop_id filter_append)
  ultimately have "length (filter (\<lambda>x. x < ys ! k) ys) = length (filter (\<lambda>x. x < ys ! k) (take k ys))"
    by simp
  also have "\<dots> \<le> length (take k ys)" by (rule length_filter_le)
  also have "\<dots> \<le> k" by simp
  finally show ?thesis .
qed

lemma sorted_nth_upto:
  assumes "sorted ys" "k < length ys"
  shows "Suc k \<le> length (filter (\<lambda>x. x \<le> ys ! k) ys)"
proof -
  have "\<forall>x \<in> set (take (Suc k) ys). x \<le> ys ! k"
  proof
    fix x assume "x \<in> set (take (Suc k) ys)"
    then obtain j where "j < length (take (Suc k) ys)" "x = take (Suc k) ys ! j"
      by (auto simp: in_set_conv_nth)
    then have "x = ys ! j" "j \<le> k" by auto
    with assms show "x \<le> ys ! k" by (simp add: sorted_nth_mono)
  qed
  then have "filter (\<lambda>x. x \<le> ys ! k) (take (Suc k) ys) = take (Suc k) ys" by (simp add: filter_id_conv)
  moreover have "filter (\<lambda>x. x \<le> ys ! k) ys
      = filter (\<lambda>x. x \<le> ys ! k) (take (Suc k) ys) @ filter (\<lambda>x. x \<le> ys ! k) (drop (Suc k) ys)"
    by (metis append_take_drop_id filter_append)
  ultimately have "length (take (Suc k) ys) \<le> length (filter (\<lambda>x. x \<le> ys ! k) ys)"
    by simp
  with assms(2) show ?thesis by simp
qed

lemma length_filter_sort: "length (filter P (sort xs)) = length (filter P xs)"
  by (simp add: filter_sort)

lemma lower_median_is:
  assumes "xs \<noteq> []"
  shows "is_lower_median xs (lower_median xs)"
proof -
  define k where "k = (length xs - 1) div 2"
  from assms have k: "k < length (sort xs)" by (cases xs) (simp_all add: k_def)
  have m: "lower_median xs = sort xs ! k" by (simp add: lower_median_def k_def)
  from k have "sort xs ! k \<in> set (sort xs)" by (rule nth_mem)
  then have mem: "lower_median xs \<in> set xs" by (simp add: m)
  have "length (filter (\<lambda>x. x < sort xs ! k) (sort xs)) \<le> k"
    by (rule sorted_nth_below [OF sorted_sort k])
  then have lo: "length (filter (\<lambda>x. x < lower_median xs) xs) \<le> k"
    by (simp add: m length_filter_sort)
  have "Suc k \<le> length (filter (\<lambda>x. x \<le> sort xs ! k) (sort xs))"
    by (rule sorted_nth_upto [OF sorted_sort k])
  then have hi: "Suc k \<le> length (filter (\<lambda>x. x \<le> lower_median xs) xs)"
    by (simp add: m length_filter_sort)
  from assms have "0 < length xs" by simp
  then have "2 * k < length xs" "length xs \<le> 2 * Suc k" unfolding k_def by arith+
  with lo hi mem show ?thesis by (simp add: is_lower_median_def)
qed

lemma filter_less_le_mono:
  fixes m :: "'a::linorder"
  assumes "m < m'"
  shows "length (filter (\<lambda>x. x \<le> m) xs) \<le> length (filter (\<lambda>x. x < m') xs)"
proof -
  have "filter (\<lambda>x. x \<le> m) xs = filter (\<lambda>x. x \<le> m) (filter (\<lambda>x. x < m') xs)"
    using assms by (auto intro!: filter_cong)
  then show ?thesis by (metis length_filter_le)
qed

lemma is_lower_median_unique:
  assumes "is_lower_median xs m" "is_lower_median xs m'"
  shows "m = m'"
proof (rule ccontr)
  assume "m \<noteq> m'"
  then consider "m < m'" | "m' < m" by (meson linorder_neqE)
  then show False
  proof cases
    case 1
    from filter_less_le_mono [OF 1, of xs] assms show False
      by (simp add: is_lower_median_def)
  next
    case 2
    from filter_less_le_mono [OF 2, of xs] assms show False
      by (simp add: is_lower_median_def)
  qed
qed

lemma lower_median_even:
  assumes "even (length xs)" "xs \<noteq> []"
  shows "lower_median xs = min (sort xs ! (length xs div 2 - 1)) (sort xs ! (length xs div 2))"
proof -
  from assms have n: "0 < length xs" by simp
  with assms(1) have k: "(length xs - 1) div 2 = length xs div 2 - 1" by presburger
  from n have "length xs div 2 - 1 \<le> length xs div 2" "length xs div 2 < length (sort xs)" by simp_all
  then have "sort xs ! (length xs div 2 - 1) \<le> sort xs ! (length xs div 2)"
    by (intro sorted_nth_mono) simp_all
  then show ?thesis unfolding lower_median_def k by (simp add: min_def)
qed

lemma lower_median_odd:
  assumes "odd (length xs)"
  shows "lower_median xs = sort xs ! (length xs div 2)"
proof -
  from assms have "(length xs - 1) div 2 = length xs div 2" by presburger
  then show ?thesis by (simp add: lower_median_def)
qed


lemma included_feeds_set:
  "set (included_feeds authorized b now) =
     {e \<in> set (feeds b). authorized (fst e)
        \<and> \<not> fst (snd e) + feed_lifetime_sec (b_options b) \<le> now}"
  by (auto simp: included_feeds_def feed_is_stale_def)

text \<open>
  C1. For an asset that is not settled and at least one included feed (a feed of an
  authorized publisher that is not stale), \<open>update_median_feeds\<close> succeeds and every
  coordinate of the resulting \<open>current_feed\<close> is the lower median of that coordinate over
  the included feeds: the one observed value with fewer than half of the values below it
  and at least half at most it; for an even number of included feeds it is the lower of
  the two middle values of the sorted observations, for an odd number the middle value.
  \<open>current_feed_publication_time\<close> becomes the minimum timestamp of the included feeds.
  The witness evaluates the feeds 10, 20, 30 (median 20) and 10, 20 (median 10), with a
  stale feed and a feed of an unauthorized publisher left out.
\<close>

theorem update_median_feeds_median:
  fixes b :: "'p::linorder asset_bitasset_data_object"
    and authorized :: "object_id_type \<Rightarrow> bool" and now :: time_point_sec
  defines "sel \<equiv> included_feeds authorized b now"
  defines "prices \<equiv> map (\<lambda>(publisher, published, f). feed_settlement_price f) sel"
  defines "ratios \<equiv> map (\<lambda>(publisher, published, f). max_collateral_ratio f) sel"
  assumes "\<not> has_settlement is_null b" and "sel \<noteq> []"
  shows "\<exists>b'. update_median_feeds is_null authorized b now = Inr b'
     \<and> set sel = {e \<in> set (feeds b). authorized (fst e)
          \<and> \<not> fst (snd e) + feed_lifetime_sec (b_options b) \<le> now}
     \<and> is_lower_median prices (feed_settlement_price (current_feed b'))
     \<and> is_lower_median ratios (max_collateral_ratio (current_feed b'))
     \<and> (\<forall>m. is_lower_median prices m \<longrightarrow> m = feed_settlement_price (current_feed b'))
     \<and> (\<forall>m. is_lower_median ratios m \<longrightarrow> m = max_collateral_ratio (current_feed b'))
     \<and> (even (length sel) \<longrightarrow>
          feed_settlement_price (current_feed b')
            = min (sort prices ! (length sel div 2 - 1)) (sort prices ! (length sel div 2))
          \<and> max_collateral_ratio (current_feed b')
            = min (sort ratios ! (length sel div 2 - 1)) (sort ratios ! (length sel div 2)))
     \<and> (odd (length sel) \<longrightarrow>
          feed_settlement_price (current_feed b') = sort prices ! (length sel div 2)
          \<and> max_collateral_ratio (current_feed b') = sort ratios ! (length sel div 2))
     \<and> current_feed_publication_time b' = Min ((\<lambda>(publisher, published, f). published) ` set sel)
     \<and> feeds b' = feeds b"
proof -
  define b' where "b' = b\<lparr>current_feed := median_feed (map (\<lambda>(publisher, published, f). f) sel),
      current_feed_publication_time := min_list (map (\<lambda>(publisher, published, f). published) sel)\<rparr>"
  have run: "update_median_feeds is_null authorized b now = Inr b'"
    using assms(4,5) by (simp add: update_median_feeds_def Let_def b'_def sel_def)
  have maps: "map (feed_settlement_price \<circ> (\<lambda>(publisher, published, f). f)) sel = prices"
    "map (max_collateral_ratio \<circ> (\<lambda>(publisher, published, f). f)) sel = ratios"
    by (simp_all add: prices_def ratios_def case_prod_beta comp_def)
  have p: "feed_settlement_price (current_feed b') = lower_median prices"
    and r: "max_collateral_ratio (current_feed b') = lower_median ratios"
    by (simp_all add: b'_def median_feed_def maps)
  have ne: "prices \<noteq> []" "ratios \<noteq> []" and len: "length prices = length sel" "length ratios = length sel"
    using assms(5) by (simp_all add: prices_def ratios_def)
  have t: "current_feed_publication_time b' = Min ((\<lambda>(publisher, published, f). published) ` set sel)"
    using assms(5) by (simp add: b'_def min_list_Min)
  have ev: "even (length sel) \<longrightarrow>
          feed_settlement_price (current_feed b')
            = min (sort prices ! (length sel div 2 - 1)) (sort prices ! (length sel div 2))
          \<and> max_collateral_ratio (current_feed b')
            = min (sort ratios ! (length sel div 2 - 1)) (sort ratios ! (length sel div 2))"
    using lower_median_even [of prices] lower_median_even [of ratios] ne
    by (simp add: p r len)
  have od: "odd (length sel) \<longrightarrow>
          feed_settlement_price (current_feed b') = sort prices ! (length sel div 2)
          \<and> max_collateral_ratio (current_feed b') = sort ratios ! (length sel div 2)"
    using lower_median_odd [of prices] lower_median_odd [of ratios]
    by (simp add: p r len)
  have lm: "is_lower_median prices (feed_settlement_price (current_feed b'))"
    "is_lower_median ratios (max_collateral_ratio (current_feed b'))"
    by (simp_all add: p r lower_median_is ne)
  then have "\<forall>m. is_lower_median prices m \<longrightarrow> m = feed_settlement_price (current_feed b')"
    "\<forall>m. is_lower_median ratios m \<longrightarrow> m = max_collateral_ratio (current_feed b')"
    by (blast intro: is_lower_median_unique)+
  moreover note lm
  moreover have "feeds b' = feeds b" by (simp add: b'_def)
  moreover have "set sel = {e \<in> set (feeds b). authorized (fst e)
          \<and> \<not> fst (snd e) + feed_lifetime_sec (b_options b) \<le> now}"
    unfolding sel_def by (rule included_feeds_set)
  ultimately show ?thesis using run t ev od by blast
qed

lemma sample_included3:
  "included_feeds sample_authorized (sample_bitasset\<lparr>feeds := (3, 1020, sample_feed 30 1800) # sample_feeds\<rparr>) 87000
     = [(3, 1020, sample_feed 30 1800), (1, 1000, sample_feed 10 1750), (2, 1010, sample_feed 20 1700)]"
  by (simp add: included_feeds_def sample_bitasset_def sample_feeds_def sample_authorized_def
      feed_is_stale_def)

lemma sample_included2:
  "included_feeds sample_authorized (sample_bitasset\<lparr>feeds := sample_feeds\<rparr>) 87000
     = [(1, 1000, sample_feed 10 1750), (2, 1010, sample_feed 20 1700)]"
  by (simp add: included_feeds_def sample_bitasset_def sample_feeds_def sample_authorized_def
      feed_is_stale_def)

theorem update_median_feeds_median_witness:
  "update_median_feeds sample_is_null sample_authorized
       (sample_bitasset\<lparr>feeds := (3, 1020, sample_feed 30 1800) # sample_feeds\<rparr>) 87000
     = Inr (sample_bitasset\<lparr>feeds := (3, 1020, sample_feed 30 1800) # sample_feeds,
              current_feed := sample_feed 20 1750, current_feed_publication_time := 1000\<rparr>)
   \<and> is_lower_median [30, 10, 20 :: int] 20
   \<and> update_median_feeds sample_is_null sample_authorized
       (sample_bitasset\<lparr>feeds := sample_feeds\<rparr>) 87000
     = Inr (sample_bitasset\<lparr>feeds := sample_feeds,
              current_feed := sample_feed 10 1700, current_feed_publication_time := 1000\<rparr>)
   \<and> is_lower_median [10, 20 :: int] 10"
proof -
  have a: "\<not> has_settlement sample_is_null (sample_bitasset\<lparr>feeds := fs\<rparr>)" for fs
    by (simp add: has_settlement_def sample_is_null_def sample_bitasset_def)
  have r3: "update_median_feeds sample_is_null sample_authorized
       (sample_bitasset\<lparr>feeds := (3, 1020, sample_feed 30 1800) # sample_feeds\<rparr>) 87000
     = Inr (sample_bitasset\<lparr>feeds := (3, 1020, sample_feed 30 1800) # sample_feeds,
              current_feed := sample_feed 20 1750, current_feed_publication_time := 1000\<rparr>)"
    unfolding update_median_feeds_def Let_def sample_included3
    by (simp add: a median_feed_def lower_median_def sample_feed_def)
  have r2: "update_median_feeds sample_is_null sample_authorized
       (sample_bitasset\<lparr>feeds := sample_feeds\<rparr>) 87000
     = Inr (sample_bitasset\<lparr>feeds := sample_feeds,
              current_feed := sample_feed 10 1700, current_feed_publication_time := 1000\<rparr>)"
    unfolding update_median_feeds_def Let_def sample_included2
    by (simp add: a median_feed_def lower_median_def sample_feed_def)
  have ne3: "included_feeds sample_authorized
      (sample_bitasset\<lparr>feeds := (3, 1020, sample_feed 30 1800) # sample_feeds\<rparr>) 87000 \<noteq> []"
    by (simp add: sample_included3)
  have ne2: "included_feeds sample_authorized (sample_bitasset\<lparr>feeds := sample_feeds\<rparr>) 87000 \<noteq> []"
    by (simp add: sample_included2)
  from update_median_feeds_median [OF a ne3] obtain b3
    where "update_median_feeds sample_is_null sample_authorized
       (sample_bitasset\<lparr>feeds := (3, 1020, sample_feed 30 1800) # sample_feeds\<rparr>) 87000 = Inr b3"
      and "is_lower_median (map (\<lambda>(publisher, published, f). feed_settlement_price f)
        (included_feeds sample_authorized
          (sample_bitasset\<lparr>feeds := (3, 1020, sample_feed 30 1800) # sample_feeds\<rparr>) 87000))
        (feed_settlement_price (current_feed b3))"
    by blast
  then have l3: "is_lower_median [30, 10, 20 :: int] 20"
    unfolding r3 sample_included3 by (auto simp: sample_feed_def)
  from update_median_feeds_median [OF a ne2] obtain b2
    where "update_median_feeds sample_is_null sample_authorized
       (sample_bitasset\<lparr>feeds := sample_feeds\<rparr>) 87000 = Inr b2"
      and "is_lower_median (map (\<lambda>(publisher, published, f). feed_settlement_price f)
        (included_feeds sample_authorized (sample_bitasset\<lparr>feeds := sample_feeds\<rparr>) 87000))
        (feed_settlement_price (current_feed b2))"
    by blast
  then have l2: "is_lower_median [10, 20 :: int] 10"
    unfolding r2 sample_included2 by (auto simp: sample_feed_def)
  from r3 l3 r2 l2 show ?thesis by simp
qed


section \<open>Global settlement is terminal\<close>

lemma apply_op_settled:
  assumes "has_settlement (env_is_null env) b" "apply_op env a b x = Inr b'"
  shows "has_settlement (env_is_null env) b' \<and> settlement_price b' = settlement_price b"
  using assms
  by (cases x)
    (auto simp: publish_feed_def update_median_feeds_def globally_settle_def force_settle_def
      reset_force_settled_volume_def has_settlement_def split: if_splits)

lemma apply_ops_settled:
  "has_settlement (env_is_null env) b \<Longrightarrow>
     has_settlement (env_is_null env) (apply_ops env a b xs)
     \<and> settlement_price (apply_ops env a b xs) = settlement_price b"
proof (induction xs arbitrary: b)
  case Nil
  then show ?case by simp
next
  case (Cons x xs)
  show ?case
  proof (cases "apply_op env a b x")
    case (Inl e)
    with Cons show ?thesis by simp
  next
    case (Inr b')
    from apply_op_settled [OF Cons.prems Inr]
    have "has_settlement (env_is_null env) b'" and p: "settlement_price b' = settlement_price b"
      by simp_all
    from Cons.IH [OF this(1)] p Inr show ?thesis by simp
  qed
qed

lemma feed_op_rejected:
  "has_settlement (env_is_null env) b \<Longrightarrow> is_feed_op x \<Longrightarrow> apply_op env a b x = Inl AlreadySettled"
  by (cases x) (simp_all add: publish_feed_def update_median_feeds_def)

lemma feed_ops_settled:
  "has_settlement (env_is_null env) b \<Longrightarrow> list_all is_feed_op xs \<Longrightarrow> apply_ops env a b xs = b"
  by (induction xs) (simp_all add: feed_op_rejected)

text \<open>
  C2. Once the asset is settled, \<open>publish_feed\<close> and \<open>update_median_feeds\<close> are rejected
  with \<open>AlreadySettled\<close>; a sequence of feed operations leaves the record, and so
  \<open>settlement_price\<close> and \<open>settlement_fund\<close>, as it is; and after any sequence of
  operations the asset is still settled, at the same settlement price.
\<close>

theorem global_settlement_one_way:
  assumes "has_settlement (env_is_null env) b"
  shows "publish_feed (env_is_null env) b publisher f now = Inl AlreadySettled
     \<and> update_median_feeds (env_is_null env) (env_authorized env) b now = Inl AlreadySettled
     \<and> (list_all is_feed_op fs \<longrightarrow>
          settlement_price (apply_ops env a b fs) = settlement_price b
          \<and> settlement_fund (apply_ops env a b fs) = settlement_fund b
          \<and> apply_ops env a b fs = b)
     \<and> has_settlement (env_is_null env) (apply_ops env a b xs)
     \<and> settlement_price (apply_ops env a b xs) = settlement_price b"
  using assms apply_ops_settled [OF assms, of a xs] feed_ops_settled [OF assms, of fs a]
  by (simp add: publish_feed_def update_median_feeds_def)

theorem global_settlement_one_way_witness:
  "has_settlement (env_is_null sample_env) (sample_bitasset\<lparr>settlement_price := 5, settlement_fund := 1000\<rparr>)
   \<and> publish_feed (env_is_null sample_env)
        (sample_bitasset\<lparr>settlement_price := 5, settlement_fund := 1000\<rparr>) 1 (sample_feed 10 1750) 2000
       = Inl AlreadySettled
   \<and> update_median_feeds (env_is_null sample_env) (env_authorized sample_env)
        (sample_bitasset\<lparr>settlement_price := 5, settlement_fund := 1000\<rparr>) 2000
       = Inl AlreadySettled
   \<and> apply_ops sample_env (sample_asset 0 0x20 (Some 3))
        (sample_bitasset\<lparr>settlement_price := 5, settlement_fund := 1000\<rparr>)
        [Publish_feed 1 (sample_feed 10 1750) 2000, Recompute 2000]
       = sample_bitasset\<lparr>settlement_price := 5, settlement_fund := 1000\<rparr>
   \<and> settlement_price (apply_ops sample_env (sample_asset 0 0x20 (Some 3))
        (sample_bitasset\<lparr>settlement_price := 5, settlement_fund := 1000\<rparr>)
        [Publish_feed 1 (sample_feed 10 1750) 2000, Global_settle 0 0, Force_settle 1000000 10,
         Reset_volume, Recompute 2000]) = 5
   \<and> has_settlement (env_is_null sample_env) (apply_ops sample_env (sample_asset 0 0x20 (Some 3))
        (sample_bitasset\<lparr>settlement_price := 5, settlement_fund := 1000\<rparr>)
        [Publish_feed 1 (sample_feed 10 1750) 2000, Global_settle 0 0, Force_settle 1000000 10,
         Reset_volume, Recompute 2000])"
proof -
  have s: "has_settlement (env_is_null sample_env)
      (sample_bitasset\<lparr>settlement_price := 5, settlement_fund := 1000\<rparr>)"
    by (simp add: has_settlement_def sample_env_def sample_is_null_def)
  have f: "list_all is_feed_op [Publish_feed 1 (sample_feed 10 1750) 2000, Recompute 2000 :: int bitasset_op]"
    by simp
  note g = global_settlement_one_way [OF s, of 1 "sample_feed 10 1750" 2000
        "[Publish_feed 1 (sample_feed 10 1750) 2000, Recompute 2000]" "sample_asset 0 0x20 (Some 3)"
        "[Publish_feed 1 (sample_feed 10 1750) 2000, Global_settle 0 0, Force_settle 1000000 10,
         Reset_volume, Recompute 2000]"]
  from g have "settlement_price (apply_ops sample_env (sample_asset 0 0x20 (Some 3))
        (sample_bitasset\<lparr>settlement_price := 5, settlement_fund := 1000\<rparr>)
        [Publish_feed 1 (sample_feed 10 1750) 2000, Global_settle 0 0, Force_settle 1000000 10,
         Reset_volume, Recompute 2000])
      = settlement_price (sample_bitasset\<lparr>settlement_price := 5, settlement_fund := 1000\<rparr>)"
    by blast
  also have "\<dots> = 5" by simp
  finally have p: "settlement_price (apply_ops sample_env (sample_asset 0 0x20 (Some 3))
        (sample_bitasset\<lparr>settlement_price := 5, settlement_fund := 1000\<rparr>)
        [Publish_feed 1 (sample_feed 10 1750) 2000, Global_settle 0 0, Force_settle 1000000 10,
         Reset_volume, Recompute 2000]) = 5" .
  from s f g p show ?thesis by blast
qed

section \<open>The throttle of force settlements\<close>

text \<open>
  C6. \<open>max_force_settlement_volume\<close> is the product of the supply and the configured
  percentage divided by the fixed-point value of 100 percent, rounded down. A request
  whose volume would push \<open>force_settled_volume\<close> above the cap is rejected with
  \<open>ExceedsSettlementBudget\<close> (the record is not changed, nothing is filled), a request
  within the cap adds its volume to \<open>force_settled_volume\<close>, and a force settlement of an
  asset that is not settled is such a request. With a supply of 1000000 and a cap of 10
  percent the maximum is 100000; a request for 150000 is rejected and one for 100000
  brings \<open>force_settled_volume\<close> to 100000.
\<close>

theorem force_settlement_volume_cap:
  fixes b :: "'p asset_bitasset_data_object"
    and hundred_percent :: nat and current_supply :: share_type
  defines "cap \<equiv> max_force_settlement_volume hundred_percent b current_supply"
  assumes "0 < hundred_percent"
  shows "cap * int hundred_percent \<le> current_supply * int (max_force_settlement_pct (b_options b))
     \<and> current_supply * int (max_force_settlement_pct (b_options b)) < (cap + 1) * int hundred_percent
     \<and> (cap < force_settled_volume b + volume \<longrightarrow>
          request_settlement_volume hundred_percent b current_supply volume
            = Inl ExceedsSettlementBudget)
     \<and> (force_settled_volume b + volume \<le> cap \<longrightarrow>
          request_settlement_volume hundred_percent b current_supply volume
            = Inr (b\<lparr>force_settled_volume := force_settled_volume b + volume\<rparr>))
     \<and> (\<not> has_settlement is_null b \<longrightarrow>
          force_settle hundred_percent is_null payout b current_supply volume
            = request_settlement_volume hundred_percent b current_supply volume)"
proof -
  define n where "n = current_supply * int (max_force_settlement_pct (b_options b))"
  define h where "h = int hundred_percent"
  from assms(2) have h: "0 < h" by (simp add: h_def)
  have cap: "cap = n div h" by (simp add: cap_def max_force_settlement_volume_def n_def h_def)
  have "n = n div h * h + n mod h" by simp
  moreover from h have "0 \<le> n mod h" "n mod h < h" by simp_all
  ultimately have "n div h * h \<le> n" "n < n div h * h + h"
    by linarith+
  moreover have "(n div h + 1) * h = n div h * h + h"
    by (simp add: algebra_simps)
  ultimately have "n div h * h \<le> n" "n < (n div h + 1) * h"
    by simp_all
  then show ?thesis
    unfolding cap n_def [symmetric] h_def [symmetric]
    by (simp add: request_settlement_volume_def force_settle_def cap [symmetric] cap_def)
qed

theorem force_settlement_volume_cap_witness:
  "max_force_settlement_volume 10000 sample_bitasset 1000000 = 100000
   \<and> request_settlement_volume 10000 sample_bitasset 1000000 150000 = Inl ExceedsSettlementBudget
   \<and> request_settlement_volume 10000 sample_bitasset 1000000 100000
       = Inr (sample_bitasset\<lparr>force_settled_volume := 100000\<rparr>)
   \<and> force_settle 10000 sample_is_null (\<lambda>p v. p * v) sample_bitasset 1000000 150000
       = Inl ExceedsSettlementBudget
   \<and> force_settle 10000 sample_is_null (\<lambda>p v. p * v) sample_bitasset 1000000 100000
       = Inr (sample_bitasset\<lparr>force_settled_volume := 100000\<rparr>)"
proof -
  have c: "max_force_settlement_volume 10000 sample_bitasset 1000000 = 100000"
    by (simp add: max_force_settlement_volume_def sample_bitasset_def)
  have z: "force_settled_volume sample_bitasset = 0" "\<not> has_settlement sample_is_null sample_bitasset"
    by (simp_all add: sample_bitasset_def has_settlement_def sample_is_null_def)
  have h: "0 < (10000::nat)" by simp
  show ?thesis
    using force_settlement_volume_cap [OF h, where b = sample_bitasset and current_supply = 1000000
        and volume = 150000 and is_null = sample_is_null and payout = "\<lambda>p v. p * v"]
      force_settlement_volume_cap [OF h, where b = sample_bitasset and current_supply = 1000000
        and volume = 100000 and is_null = sample_is_null and payout = "\<lambda>p v. p * v"]
    by (simp add: c z)
qed

section \<open>Unique symbols in the asset store\<close>

lemma find_snoc:
  "find P (xs @ [x]) = (case find P xs of Some y \<Rightarrow> Some y | None \<Rightarrow> if P x then Some x else None)"
  by (induction xs) simp_all

lemma insert_asset_duplicate:
  "find_by_symbol st (symbol a) \<noteq> None \<Longrightarrow> insert_asset st a = Inl DuplicateSymbol"
  by (simp add: insert_asset_def)

lemma insert_asset_fresh:
  assumes "find_by_symbol st (symbol a) = None"
  shows "insert_asset st a
      = Inr \<lparr>next_id = Suc (next_id st), objects = objects st @ [a\<lparr>object_id := next_id st\<rparr>]\<rparr>"
    and "find_by_symbol \<lparr>next_id = Suc (next_id st), objects = objects st @ [a\<lparr>object_id := next_id st\<rparr>]\<rparr>
          (symbol a) = Some (a\<lparr>object_id := next_id st\<rparr>)"
  using assms by (simp_all add: insert_asset_def find_by_symbol_def find_snoc)

text \<open>An insertion never removes a symbol, and adds no symbol but that of its argument.\<close>

lemma insert_asset_keeps_symbol:
  "insert_asset st a = Inr st' \<Longrightarrow> find_by_symbol st s = Some x \<Longrightarrow> find_by_symbol st' s = Some x"
  by (auto simp: insert_asset_def find_by_symbol_def find_snoc split: if_splits)

lemma insert_asset_other_symbol:
  "insert_asset st a = Inr st' \<Longrightarrow> symbol a \<noteq> s \<Longrightarrow> find_by_symbol st' s = find_by_symbol st s"
  by (auto simp: insert_asset_def find_by_symbol_def find_snoc split: if_splits option.splits)

lemma insert_all_keeps_symbol:
  "find_by_symbol st s = Some x \<Longrightarrow> find_by_symbol (insert_all st as) s = Some x"
proof (induction as arbitrary: st)
  case Nil
  then show ?case by simp
next
  case (Cons a as)
  show ?case
  proof (cases "insert_asset st a")
    case (Inl e)
    with Cons show ?thesis by simp
  next
    case (Inr st')
    from insert_asset_keeps_symbol [OF Inr Cons.prems] have "find_by_symbol st' s = Some x" .
    from Cons.IH [OF this] Inr show ?thesis by simp
  qed
qed

lemma inserted_with_symbol_present:
  "find_by_symbol st s = Some x \<Longrightarrow> inserted_with_symbol s st as = []"
proof (induction as arbitrary: st)
  case Nil
  then show ?case by (simp add: inserted_with_symbol_def)
next
  case (Cons a as)
  show ?case
  proof (cases "insert_asset st a")
    case (Inl e)
    with Cons.IH [OF Cons.prems] show ?thesis by (simp add: inserted_with_symbol_def)
  next
    case (Inr st')
    with Cons.prems have "symbol a \<noteq> s"
      by (auto simp: insert_asset_def split: if_splits)
    moreover from insert_asset_keeps_symbol [OF Inr Cons.prems] have "find_by_symbol st' s = Some x" .
    ultimately show ?thesis using Cons.IH [of st'] Inr by (simp add: inserted_with_symbol_def)
  qed
qed

lemma inserted_with_symbol_fresh:
  "find_by_symbol st s = None \<Longrightarrow>
     length (inserted_with_symbol s st as) = (if s \<in> symbol ` set as then 1 else 0)"
proof (induction as arbitrary: st)
  case Nil
  then show ?case by (simp add: inserted_with_symbol_def)
next
  case (Cons a as)
  show ?case
  proof (cases "symbol a = s")
    case True
    with Cons.prems have f: "find_by_symbol st (symbol a) = None" by simp
    define st' where "st' = \<lparr>next_id = Suc (next_id st),
      objects = objects st @ [a\<lparr>object_id := next_id st\<rparr>]\<rparr>"
    from insert_asset_fresh [OF f] True
    have i: "insert_asset st a = Inr st'" and p: "find_by_symbol st' s = Some (a\<lparr>object_id := next_id st\<rparr>)"
      by (simp_all add: st'_def)
    from inserted_with_symbol_present [OF p] have "inserted_with_symbol s st' as = []" .
    with i True show ?thesis by (simp add: inserted_with_symbol_def)
  next
    case False
    show ?thesis
    proof (cases "insert_asset st a")
      case (Inl e)
      with Cons.IH [OF Cons.prems] False show ?thesis by (simp add: inserted_with_symbol_def)
    next
      case (Inr st')
      from insert_asset_other_symbol [OF Inr False] Cons.prems have "find_by_symbol st' s = None"
        by simp
      from Cons.IH [OF this] Inr False show ?thesis by (simp add: inserted_with_symbol_def)
    qed
  qed
qed

text \<open>
  C9. A symbol that the ticker grammar accepts is valid for \<open>is_valid_symbol\<close>. An asset
  whose symbol is not in the store is inserted, under the next identity; from then on,
  whatever other insertions are tried in between, every insertion of an asset with the
  same symbol fails with \<open>DuplicateSymbol\<close> and leaves the store as it is. So in any
  sequence of insertions into a store without the symbol, exactly one insertion with that
  symbol succeeds if there is one in the sequence, and none otherwise.
\<close>

theorem insert_asset_unique_symbol:
  assumes "ticker_grammar s" and "find_by_symbol st s = None"
    and "symbol a = s" and "symbol a2 = s"
  shows "is_valid_symbol ticker_grammar s
     \<and> (\<exists>st'. insert_asset st a = Inr st'
          \<and> find_by_symbol st' s = Some (a\<lparr>object_id := next_id st\<rparr>)
          \<and> insert_asset st' a2 = Inl DuplicateSymbol
          \<and> insert_asset (insert_all st' others) a2 = Inl DuplicateSymbol
          \<and> find_by_symbol (insert_all st' others) s = Some (a\<lparr>object_id := next_id st\<rparr>)
          \<and> insert_all (insert_all st' others) [a2] = insert_all st' others)
     \<and> length (inserted_with_symbol s st attempts) = (if s \<in> symbol ` set attempts then 1 else 0)"
proof -
  define st' where "st' = \<lparr>next_id = Suc (next_id st),
      objects = objects st @ [a\<lparr>object_id := next_id st\<rparr>]\<rparr>"
  from assms(2,3) have f: "find_by_symbol st (symbol a) = None" by simp
  from insert_asset_fresh [OF f] assms(3)
  have i: "insert_asset st a = Inr st'" and p: "find_by_symbol st' s = Some (a\<lparr>object_id := next_id st\<rparr>)"
    by (simp_all add: st'_def)
  from insert_all_keeps_symbol [OF p]
  have q: "find_by_symbol (insert_all st' others) s = Some (a\<lparr>object_id := next_id st\<rparr>)" .
  from p assms(4) have d1: "insert_asset st' a2 = Inl DuplicateSymbol"
    by (simp add: insert_asset_duplicate)
  from q assms(4) have d2: "insert_asset (insert_all st' others) a2 = Inl DuplicateSymbol"
    by (simp add: insert_asset_duplicate)
  then have u: "insert_all (insert_all st' others) [a2] = insert_all st' others" by simp
  from assms(1) have "is_valid_symbol ticker_grammar s" by (simp add: is_valid_symbol_def)
  with i p q d1 d2 u inserted_with_symbol_fresh [OF assms(2), of attempts] show ?thesis by blast
qed

theorem insert_asset_unique_symbol_witness:
  "is_valid_symbol sample_ticker_grammar ''USD''
   \<and> find_by_symbol sample_store ''USD'' = None
   \<and> insert_asset sample_store sample_usd
       = Inr \<lparr>next_id = 8, objects = [sample_usd\<lparr>object_id := 7\<rparr>]\<rparr>
   \<and> insert_all \<lparr>next_id = 8, objects = [sample_usd\<lparr>object_id := 7\<rparr>]\<rparr> [sample_eur]
       = \<lparr>next_id = 9, objects = [sample_usd\<lparr>object_id := 7\<rparr>, sample_eur\<lparr>object_id := 8\<rparr>]\<rparr>
   \<and> insert_asset \<lparr>next_id = 9, objects = [sample_usd\<lparr>object_id := 7\<rparr>, sample_eur\<lparr>object_id := 8\<rparr>]\<rparr>
        sample_usd2 = Inl DuplicateSymbol
   \<and> length (inserted_with_symbol ''USD'' sample_store [sample_usd, sample_eur, sample_usd2]) = 1"
proof -
  have g: "sample_ticker_grammar ''USD''"
    by (simp add: sample_ticker_grammar_def)
  have n: "find_by_symbol sample_store ''USD'' = None"
    by (simp add: find_by_symbol_def sample_store_def)
  have s: "symbol sample_usd = ''USD''" "symbol sample_usd2 = ''USD''" "symbol sample_eur = ''EUR''"
    by (simp_all add: sample_usd_def sample_usd2_def sample_eur_def sample_asset_def)
  have i: "insert_asset sample_store sample_usd
      = Inr \<lparr>next_id = 8, objects = [sample_usd\<lparr>object_id := 7\<rparr>]\<rparr>"
    by (simp add: insert_asset_def find_by_symbol_def sample_store_def s)
  have e: "insert_all \<lparr>next_id = 8, objects = [sample_usd\<lparr>object_id := 7\<rparr>]\<rparr> [sample_eur]
      = \<lparr>next_id = 9, objects = [sample_usd\<lparr>object_id := 7\<rparr>, sample_eur\<lparr>object_id := 8\<rparr>]\<rparr>"
    by (simp add: insert_asset_def find_by_symbol_def s)
  from insert_asset_unique_symbol [where ticker_grammar = sample_ticker_grammar and s = "''USD''"
      and others = "[sample_eur]" and attempts = "[sample_usd, sample_eur, sample_usd2]",
      OF g n s(1) s(2)]
  obtain st' where a1: "insert_asset sample_store sample_usd = Inr st'"
    and a2: "insert_asset (insert_all st' [sample_eur]) sample_usd2 = Inl DuplicateSymbol"
    and v: "is_valid_symbol sample_ticker_grammar ''USD''"
    and c: "length (inserted_with_symbol ''USD'' sample_store [sample_usd, sample_eur, sample_usd2])
        = (if ''USD'' \<in> symbol ` set [sample_usd, sample_eur, sample_usd2] then 1 else 0)"
    by blast
  from a1 i have "st' = \<lparr>next_id = 8, objects = [sample_usd\<lparr>object_id := 7\<rparr>]\<rparr>"
    by simp
  with a2 have d: "insert_asset \<lparr>next_id = 9,
      objects = [sample_usd\<lparr>object_id := 7\<rparr>, sample_eur\<lparr>object_id := 8\<rparr>]\<rparr> sample_usd2
        = Inl DuplicateSymbol"
    by (simp only: e)
  from c have "length (inserted_with_symbol ''USD'' sample_store [sample_usd, sample_eur, sample_usd2]) = 1"
    by (simp add: s)
  with v n i e d show ?thesis by simp
qed

end
